theory Spec2Isabelle
  imports Complex_Main "HOL-Library.Word"
begin

text \<open>
  A model of \<open>send_first_img.py\<close>: \<open>get_first_item\<close> (fetch the shop page, find the first
  item, read its image reference and caption), \<open>download_image_bytes\<close>,
  \<open>send_photo_telegram\<close> and \<open>main\<close>. Library calls (\<open>requests\<close>, \<open>urljoin\<close>, the HTML
  parser) are parameters or given by their results; exceptions are values of a sum type.
\<close>

section \<open>Python strings\<close>

text \<open>
  A Python \<open>str\<close> is modelled as a \<open>string\<close>; a \<open>char\<close> stands for a code point
  below 256. \<open>isspace\<close> is the set of those code points that \<open>str.strip()\<close> removes
  (TAB..CR, FS..US, SPACE, NEL, NBSP); \<open>isdigit\<close> is what \<open>\d\<close> matches there.
\<close>

definition isspace :: "char \<Rightarrow> bool" where
  "isspace c =
     (let n = (of_char c :: nat)
      in (9 \<le> n \<and> n \<le> 13) \<or> (28 \<le> n \<and> n \<le> 32) \<or> n = 133 \<or> n = 160)"

definition isdigit :: "char \<Rightarrow> bool" where
  "isdigit c = (let n = (of_char c :: nat) in 48 \<le> n \<and> n \<le> 57)"

definition strip :: "string \<Rightarrow> string" where
  "strip s = rev (dropWhile isspace (rev (dropWhile isspace s)))"

definition startswith :: "string \<Rightarrow> string \<Rightarrow> bool" where
  "startswith s p = (take (length p) s = p)"

section \<open>The document tree built by BeautifulSoup\<close>

text \<open>
  \<open>BeautifulSoup(resp.text, "html.parser")\<close> is a library call; the model starts from the
  tree it builds. A \<open>Tag\<close> has a name, its attribute dictionary (as an association list,
  read with \<open>map_of\<close>; \<open>id\<close> and \<open>src\<close> are single-valued attributes, so their values
  are strings) and its children. \<open>NavigableString\<close> is a text node; \<open>Comment\<close> stands for
  the string nodes that \<open>get_text\<close> leaves out (comments, declarations, doctypes).
  The soup object itself is a \<open>Tag\<close> whose children are the top-level nodes.
\<close>

datatype node =
    Tag string "(string \<times> string) list" "node list"
  | NavigableString string
  | Comment string

text \<open>\<open>tag.descendants\<close>: every node below the tag, in document order (pre-order).\<close>

fun descendants :: "node \<Rightarrow> node list" where
  "descendants (Tag nm attrs cs) = concat (map (\<lambda>c. c # descendants c) cs)"
| "descendants (NavigableString s) = []"
| "descendants (Comment s) = []"

text \<open>
  \<open>tag.find(name, **attrs)\<close>: the first descendant, in document order, that is a tag of
  that name and whose attribute dictionary passes the filter.
\<close>

definition matches_tag :: "string \<Rightarrow> ((string \<times> string) list \<Rightarrow> bool) \<Rightarrow> node \<Rightarrow> bool" where
  "matches_tag nm flt d = (case d of Tag n a cs \<Rightarrow> n = nm \<and> flt a | _ \<Rightarrow> False)"

definition bs_find :: "string \<Rightarrow> ((string \<times> string) list \<Rightarrow> bool) \<Rightarrow> node \<Rightarrow> node option" where
  "bs_find nm flt t = List.find (matches_tag nm flt) (descendants t)"

text \<open>\<open>tag.get(key)\<close>: the attribute's value, or \<open>None\<close>.\<close>

definition tag_get :: "node \<Rightarrow> string \<Rightarrow> string option" where
  "tag_get t k = (case t of Tag n a cs \<Rightarrow> map_of a k | _ \<Rightarrow> None)"

text \<open>
  \<open>tag.get_text(strip=True)\<close>: the text nodes below the tag in document order, each one
  stripped, the empty ones dropped, joined with the empty separator.
\<close>

definition text_of :: "node \<Rightarrow> string list" where
  "text_of d = (case d of NavigableString s \<Rightarrow> [s] | _ \<Rightarrow> [])"

definition get_text_strip :: "node \<Rightarrow> string" where
  "get_text_strip t =
     concat (filter (\<lambda>s. s \<noteq> []) (map strip (concat (map text_of (descendants t)))))"

text \<open>
  \<open>re.compile(r"^item_\d+")\<close>, applied by BeautifulSoup with \<open>search\<close>: the caret pins
  the match to the start of the value, \<open>\d+\<close> takes one or more digits, and nothing
  constrains what follows them.
\<close>

definition item_re_search :: "string \<Rightarrow> bool" where
  "item_re_search v = (take 5 v = ''item_'' \<and> takeWhile isdigit (drop 5 v) \<noteq> [])"

text \<open>The \<open>id=...\<close> filter: the tag has an \<open>id\<close> attribute and the pattern finds a match in it.\<close>

definition item_id :: "(string \<times> string) list \<Rightarrow> bool" where
  "item_id a = (case map_of a ''id'' of None \<Rightarrow> False | Some v \<Rightarrow> item_re_search v)"

definition any_attrs :: "(string \<times> string) list \<Rightarrow> bool" where
  "any_attrs a = True"

section \<open>Exceptions, responses, requests\<close>

datatype exn =
    RuntimeError string
  | RequestException string
  | HTTPError string
  | JSONDecodeError string
  | AttributeError string

datatype json =
    JNone
  | JBool bool
  | JInt int
  | JFloat real
  | JStr string
  | JList "json list"
  | JDict "(string \<times> json) list"

type_synonym byte = "8 word"

text \<open>
  What the program reads of a \<open>requests.Response\<close>: the exception \<open>raise_for_status()\<close>
  raises (\<open>None\<close> when the status is a success), the tree parsed from \<open>resp.text\<close>,
  \<open>resp.content\<close>, and the result of \<open>resp.json()\<close>, which raises on a body that does not
  parse.
\<close>

record response =
  raise_for_status :: "exn option"
  soup_of_text :: node
  content :: "byte list"
  json_of :: "exn + json"

datatype request =
    GET string nat
  | POST string "(string \<times> string) list" "(string \<times> string \<times> byte list) list" nat

section \<open>get\_first\_item\<close>

text \<open>Lines 42 to 46: the rewriting of the trimmed \<open>src\<close> value.\<close>

definition normalize_src :: "(string \<Rightarrow> string \<Rightarrow> string) \<Rightarrow> string \<Rightarrow> string \<Rightarrow> string" where
  "normalize_src urljoin url src =
     (if startswith src ''//'' then ''https:'' @ src
      else if startswith src ''/'' then urljoin url src
      else src)"

text \<open>
  The function as written. \<open>urljoin\<close> (\<open>requests.compat.urljoin\<close>) and \<open>requests_get\<close>
  (\<open>requests.get\<close>, with its \<open>timeout\<close>) are library functions and are parameters. The
  result carries the requests issued.
\<close>

definition get_first_item ::
  "(string \<Rightarrow> string \<Rightarrow> string) \<Rightarrow> (string \<Rightarrow> nat \<Rightarrow> exn + response) \<Rightarrow> string
     \<Rightarrow> request list \<times> (exn + string \<times> string)" where
  "get_first_item urljoin requests_get url =
     ([GET url 15],
      case requests_get url 15 of
        Inl e \<Rightarrow> Inl e
      | Inr resp \<Rightarrow>
          (case raise_for_status resp of
             Some e \<Rightarrow> Inl e
           | None \<Rightarrow>
               (let soup = soup_of_text resp in
                case bs_find ''div'' item_id soup of
                  None \<Rightarrow> Inl (RuntimeError ''No item div found on the page'')
                | Some item_div \<Rightarrow>
                    (case bs_find ''img'' any_attrs item_div of
                       None \<Rightarrow> Inl (RuntimeError ''No image tag found in the first item div'')
                     | Some img \<Rightarrow>
                         (case tag_get img ''src'' of
                            None \<Rightarrow> Inl (RuntimeError ''No image tag found in the first item div'')
                          | Some v \<Rightarrow>
                              if v = [] then
                                Inl (RuntimeError ''No image tag found in the first item div'')
                              else
                                (let src = strip v;
                                     src = (if startswith src ''//'' then ''https:'' @ src
                                            else if startswith src ''/'' then urljoin url src
                                            else src);
                                     dd = bs_find ''dd'' any_attrs item_div;
                                     caption = (case dd of Some d \<Rightarrow> get_text_strip d | None \<Rightarrow> [])
                                 in Inr (src, caption)))))))"

text \<open>
  The extraction alone: lines 32 to 40 and 48 to 49, that is the function without the
  request and without the rewriting of lines 42 to 46. It returns the trimmed \<open>src\<close>
  value and the caption.
\<close>

definition extract_item :: "node \<Rightarrow> exn + string \<times> string" where
  "extract_item soup =
     (case bs_find ''div'' item_id soup of
        None \<Rightarrow> Inl (RuntimeError ''No item div found on the page'')
      | Some item_div \<Rightarrow>
          (case bs_find ''img'' any_attrs item_div of
             None \<Rightarrow> Inl (RuntimeError ''No image tag found in the first item div'')
           | Some img \<Rightarrow>
               (case tag_get img ''src'' of
                  None \<Rightarrow> Inl (RuntimeError ''No image tag found in the first item div'')
                | Some v \<Rightarrow>
                    if v = [] then Inl (RuntimeError ''No image tag found in the first item div'')
                    else
                      Inr (strip v,
                           case bs_find ''dd'' any_attrs item_div of
                             Some d \<Rightarrow> get_text_strip d
                           | None \<Rightarrow> []))))"

section \<open>Downloader and notifier\<close>

definition download_image_bytes ::
  "(string \<Rightarrow> nat \<Rightarrow> exn + response) \<Rightarrow> string \<Rightarrow> request list \<times> (exn + byte list)" where
  "download_image_bytes requests_get image_url =
     ([GET image_url 20],
      case requests_get image_url 20 of
        Inl e \<Rightarrow> Inl e
      | Inr resp \<Rightarrow>
          (case raise_for_status resp of
             Some e \<Rightarrow> Inl e
           | None \<Rightarrow> Inr (content resp)))"

definition send_photo_telegram ::
  "(string \<Rightarrow> (string \<times> string) list \<Rightarrow> (string \<times> string \<times> byte list) list \<Rightarrow> nat \<Rightarrow> exn + response)
     \<Rightarrow> string \<Rightarrow> string \<Rightarrow> byte list \<Rightarrow> string \<Rightarrow> request list \<times> (exn + json)" where
  "send_photo_telegram requests_post bot_token chat_id image_bytes caption =
     (let api = ''https://api.telegram.org/bot'' @ bot_token @ ''/sendPhoto'';
          files = [(''photo'', ''image.jpg'', image_bytes)];
          data = [(''chat_id'', chat_id), (''caption'', caption)]
      in ([POST api data files 30],
          case requests_post api data files 30 of
            Inl e \<Rightarrow> Inl e
          | Inr resp \<Rightarrow>
              (case raise_for_status resp of
                 Some e \<Rightarrow> Inl e
               | None \<Rightarrow> json_of resp)))"

section \<open>The entry point\<close>

text \<open>
  What a run can see of the outside: the environment and the answers to its three
  requests. Each call site has its own answer function, so the answers are independent
  even when two requests name the same URL.
\<close>

record world =
  environ :: "string \<Rightarrow> string option"
  page_get :: "string \<Rightarrow> nat \<Rightarrow> exn + response"
  image_get :: "string \<Rightarrow> nat \<Rightarrow> exn + response"
  photo_post ::
    "string \<Rightarrow> (string \<times> string) list \<Rightarrow> (string \<times> string \<times> byte list) list \<Rightarrow> nat \<Rightarrow> exn + response"

text \<open>
  What a run does, in order: requests sent, calls of \<open>print\<close> with their arguments, and
  the traceback of an exception nobody caught. \<open>exit_code\<close> is the process's status:
  the argument of \<open>sys.exit\<close>, 0 when \<open>main\<close> returns, 1 after an uncaught exception.
\<close>

datatype pyval = Str string | Exn exn | Val json

datatype event = Request request | Print "pyval list" | Traceback exn

record run =
  events :: "event list"
  exit_code :: int

definition URL :: string where
  "URL = ''https://www.nogizaka46shop.com/category/426''"

definition usage :: string where
  "usage = ''Please set TELEGRAM_BOT_TOKEN and TELEGRAM_CHAT_ID environment variables.''"

text \<open>\<open>not x\<close> for the result of \<open>os.getenv\<close>: true for \<open>None\<close> and for the empty string.\<close>

definition py_not :: "string option \<Rightarrow> bool" where
  "py_not x = (case x of None \<Rightarrow> True | Some s \<Rightarrow> s = [])"

text \<open>\<open>res.get("ok")\<close>: defined on a dictionary only; any other value has no \<open>get\<close>.\<close>

definition res_get :: "json \<Rightarrow> string \<Rightarrow> exn + json" where
  "res_get res k =
     (case res of
        JDict kv \<Rightarrow> Inr (case map_of kv k of None \<Rightarrow> JNone | Some v \<Rightarrow> v)
      | _ \<Rightarrow> Inl (AttributeError ''get''))"

definition main :: "(string \<Rightarrow> string \<Rightarrow> string) \<Rightarrow> world \<Rightarrow> run" where
  "main urljoin w =
     (let token = environ w ''TELEGRAM_BOT_TOKEN'';
          chat_id = environ w ''TELEGRAM_CHAT_ID''
      in if py_not token \<or> py_not chat_id then
           \<lparr>events = [Print [Str usage]], exit_code = 2\<rparr>
         else
           (case get_first_item urljoin (page_get w) URL of
              (rq1, Inl e) \<Rightarrow>
                \<lparr>events = map Request rq1 @ [Print [Str ''Error fetching/parsing page:'', Exn e]],
                 exit_code = 1\<rparr>
            | (rq1, Inr (image_url, caption)) \<Rightarrow>
                (let ev1 = map Request rq1 @
                           [Print [Str ''Found image:'', Str image_url],
                            Print [Str ''Caption:'', Str caption]]
                 in case download_image_bytes (image_get w) image_url of
                      (rq2, Inl e) \<Rightarrow>
                        \<lparr>events = ev1 @ map Request rq2 @
                                  [Print [Str ''Error downloading image:'', Exn e]],
                         exit_code = 1\<rparr>
                    | (rq2, Inr image_bytes) \<Rightarrow>
                        (let ev2 = ev1 @ map Request rq2
                         in case send_photo_telegram (photo_post w)
                                   (case token of Some t \<Rightarrow> t | None \<Rightarrow> [])
                                   (case chat_id of Some c \<Rightarrow> c | None \<Rightarrow> [])
                                   image_bytes caption of
                              (rq3, Inl e) \<Rightarrow>
                                \<lparr>events = ev2 @ map Request rq3 @
                                          [Print [Str ''Error sending to Telegram:'', Exn e]],
                                 exit_code = 1\<rparr>
                            | (rq3, Inr res) \<Rightarrow>
                                (case res_get res ''ok'' of
                                   Inl e \<Rightarrow>
                                     \<lparr>events = ev2 @ map Request rq3 @ [Traceback e],
                                      exit_code = 1\<rparr>
                                 | Inr ok \<Rightarrow>
                                     \<lparr>events = ev2 @ map Request rq3 @
                                               [Print [Str ''Telegram API returned ok='', Val ok]],
                                      exit_code = 0\<rparr>)))))"

section \<open>Notions of the specification\<close>

text \<open>
  The pattern as the specification's design notes write it, \<open>^item_\d+$\<close>: the literal
  \<open>item_\<close>, one or more digits, and nothing else.
\<close>

definition spec_item_id_anchored :: "string \<Rightarrow> bool" where
  "spec_item_id_anchored v =
     (take 5 v = ''item_'' \<and> drop 5 v \<noteq> [] \<and> list_all isdigit (drop 5 v))"

text \<open>
  An absolute URL begins with a scheme: a letter, then letters, digits, \<open>+\<close>, \<open>-\<close> or
  \<open>.\<close>, then a colon.
\<close>

definition isalpha :: "char \<Rightarrow> bool" where
  "isalpha c =
     (let n = (of_char c :: nat) in (65 \<le> n \<and> n \<le> 90) \<or> (97 \<le> n \<and> n \<le> 122))"

definition scheme_char :: "char \<Rightarrow> bool" where
  "scheme_char c = (isalpha c \<or> isdigit c \<or> c = CHR ''+'' \<or> c = CHR ''-'' \<or> c = CHR ''.'')"

definition has_scheme :: "string \<Rightarrow> bool" where
  "has_scheme s =
     (case s of
        [] \<Rightarrow> False
      | c # cs \<Rightarrow>
          isalpha c \<and>
          (case dropWhile scheme_char cs of [] \<Rightarrow> False | x # xs \<Rightarrow> x = CHR '':''))"

section \<open>The library's urljoin\<close>

text \<open>
  Modelled from the spec: section 4.3 resolves a site-relative reference "against the base
  URL using standard URL-join semantics"; the join is \<open>requests.compat.urljoin\<close>, that is
  \<open>urllib.parse.urljoin\<close>, which is not part of the sources. The definitions below follow
  that function and the ones it calls (\<open>urlparse\<close>, \<open>urlsplit\<close>, \<open>_splitnetloc\<close>,
  \<open>_splitparams\<close>, \<open>urlunparse\<close>, \<open>urlunsplit\<close>) as CPython 3.11 has them, branch by
  branch, for strings of code points below 256. Two checks of \<open>urlsplit\<close> that raise
  \<open>ValueError\<close> are left out, so that the join is total as the parameter of
  \<open>get_first_item\<close> is: the check of brackets in the authority, where the model goes on
  with the unchecked parts, and the NFKC check of the authority, which cannot fail below
  code point 256.
\<close>

definition c0_control_or_space :: "char \<Rightarrow> bool" where
  "c0_control_or_space c = ((of_char c :: nat) \<le> 32)"

definition unsafe_url_byte :: "char \<Rightarrow> bool" where
  "unsafe_url_byte c = ((of_char c :: nat) = 9 \<or> (of_char c :: nat) = 13 \<or> (of_char c :: nat) = 10)"

definition lower :: "char \<Rightarrow> char" where
  "lower c =
     (let n = (of_char c :: nat) in if 65 \<le> n \<and> n \<le> 90 then char_of (n + 32) else c)"

definition uses_relative :: "string list" where
  "uses_relative =
     ['''', ''ftp'', ''http'', ''gopher'', ''nntp'', ''imap'', ''wais'', ''file'', ''https'',
      ''shttp'', ''mms'', ''prospero'', ''rtsp'', ''rtsps'', ''rtspu'', ''sftp'', ''svn'',
      ''svn+ssh'', ''ws'', ''wss'']"

definition uses_netloc :: "string list" where
  "uses_netloc =
     ['''', ''ftp'', ''http'', ''gopher'', ''nntp'', ''telnet'', ''imap'', ''wais'', ''file'',
      ''mms'', ''https'', ''shttp'', ''snews'', ''prospero'', ''rtsp'', ''rtsps'', ''rtspu'',
      ''rsync'', ''svn'', ''svn+ssh'', ''sftp'', ''nfs'', ''git'', ''git+ssh'', ''ws'', ''wss'']"

definition uses_params :: "string list" where
  "uses_params =
     ['''', ''ftp'', ''hdl'', ''prospero'', ''http'', ''imap'', ''https'', ''shttp'', ''rtsp'',
      ''rtsps'', ''rtspu'', ''sip'', ''sips'', ''mms'', ''sftp'', ''tel'']"

text \<open>\<open>s.split(c, 1)\<close> for a string that holds \<open>c\<close>: the part before the first \<open>c\<close> and the part after it.\<close>

definition split1 :: "char \<Rightarrow> string \<Rightarrow> string \<times> string" where
  "split1 c s = (takeWhile (\<lambda>x. x \<noteq> c) s, drop 1 (dropWhile (\<lambda>x. x \<noteq> c) s))"

text \<open>\<open>s.split('/')\<close> and \<open>'/'.join(xs)\<close>.\<close>

fun split_slash :: "string \<Rightarrow> string list" where
  "split_slash [] = [[]]"
| "split_slash (x # xs) =
     (if x = CHR ''/'' then [] # split_slash xs
      else (case split_slash xs of [] \<Rightarrow> [[x]] | y # ys \<Rightarrow> (x # y) # ys))"

fun join_slash :: "string list \<Rightarrow> string" where
  "join_slash [] = []"
| "join_slash [x] = x"
| "join_slash (x # y # ys) = x @ CHR ''/'' # join_slash (y # ys)"

definition splitnetloc :: "string \<Rightarrow> string \<times> string" where
  "splitnetloc url =
     (let d = (\<lambda>x. x \<noteq> CHR ''/'' \<and> x \<noteq> CHR ''?'' \<and> x \<noteq> CHR ''#'')
      in (takeWhile d (drop 2 url), dropWhile d (drop 2 url)))"

definition urlsplit :: "string \<Rightarrow> string \<Rightarrow> string \<times> string \<times> string \<times> string \<times> string" where
  "urlsplit url0 scheme0 =
     (let url = filter (\<lambda>c. \<not> unsafe_url_byte c) (dropWhile c0_control_or_space url0);
          scheme = filter (\<lambda>c. \<not> unsafe_url_byte c)
                     (rev (dropWhile c0_control_or_space
                        (rev (dropWhile c0_control_or_space scheme0))));
          pre = takeWhile (\<lambda>x. x \<noteq> CHR '':'') url;
          (scheme, url) =
            (if CHR '':'' \<in> set url \<and> pre \<noteq> [] \<and> isalpha (hd pre) \<and> list_all scheme_char pre
             then (map lower pre, drop (length pre + 1) url)
             else (scheme, url));
          (netloc, url) = (if take 2 url = ''//'' then splitnetloc url else ([], url));
          (url, fragment) = (if CHR ''#'' \<in> set url then split1 CHR ''#'' url else (url, []));
          (url, query) = (if CHR ''?'' \<in> set url then split1 CHR ''?'' url else (url, []))
      in (scheme, netloc, url, query, fragment))"

definition splitparams :: "string \<Rightarrow> string \<times> string" where
  "splitparams url =
     (if CHR ''/'' \<in> set url then
        (let after = rev (takeWhile (\<lambda>x. x \<noteq> CHR ''/'') (rev url));
             before = take (length url - length after) url
         in if CHR '';'' \<in> set after
            then (before @ takeWhile (\<lambda>x. x \<noteq> CHR '';'') after,
                  drop 1 (dropWhile (\<lambda>x. x \<noteq> CHR '';'') after))
            else (url, []))
      else split1 CHR '';'' url)"

definition urlparse ::
  "string \<Rightarrow> string \<Rightarrow> string \<times> string \<times> string \<times> string \<times> string \<times> string" where
  "urlparse url0 scheme0 =
     (case urlsplit url0 scheme0 of
        (scheme, netloc, url, query, fragment) \<Rightarrow>
          (let (url, params) =
                 (if scheme \<in> set uses_params \<and> CHR '';'' \<in> set url then splitparams url
                  else (url, []))
           in (scheme, netloc, url, params, query, fragment)))"

definition urlunsplit :: "string \<Rightarrow> string \<Rightarrow> string \<Rightarrow> string \<Rightarrow> string \<Rightarrow> string" where
  "urlunsplit scheme netloc url0 query fragment =
     (let url = (if netloc \<noteq> [] \<or> (scheme \<noteq> [] \<and> scheme \<in> set uses_netloc) \<or> take 2 url0 = ''//''
                 then ''//'' @ netloc @
                      (if url0 \<noteq> [] \<and> take 1 url0 \<noteq> ''/'' then CHR ''/'' # url0 else url0)
                 else url0);
          url = (if scheme \<noteq> [] then scheme @ '':'' @ url else url);
          url = (if query \<noteq> [] then url @ ''?'' @ query else url);
          url = (if fragment \<noteq> [] then url @ ''#'' @ fragment else url)
      in url)"

definition urlunparse ::
  "string \<Rightarrow> string \<Rightarrow> string \<Rightarrow> string \<Rightarrow> string \<Rightarrow> string \<Rightarrow> string" where
  "urlunparse scheme netloc url params query fragment =
     urlunsplit scheme netloc (if params \<noteq> [] then url @ '';'' @ params else url) query fragment"

text \<open>The loop over the segments: \<open>..\<close> pops, \<open>.\<close> is skipped, anything else is appended.\<close>

fun resolve :: "string list \<Rightarrow> string list \<Rightarrow> string list" where
  "resolve acc [] = acc"
| "resolve acc (seg # segs) =
     (if seg = ''..'' then resolve (butlast acc) segs
      else if seg = ''.'' then resolve acc segs
      else resolve (acc @ [seg]) segs)"

definition urllib_urljoin :: "string \<Rightarrow> string \<Rightarrow> string" where
  "urllib_urljoin base url =
     (if base = [] then url
      else if url = [] then base
      else
        (case urlparse base [] of
           (bscheme, bnetloc, bpath, bparams, bquery, bfragment) \<Rightarrow>
        (case urlparse url bscheme of
           (scheme, netloc, path, params, query, fragment) \<Rightarrow>
             if scheme \<noteq> bscheme \<or> scheme \<notin> set uses_relative then url
             else if scheme \<in> set uses_netloc \<and> netloc \<noteq> [] then
               urlunparse scheme netloc path params query fragment
             else
               (let netloc = (if scheme \<in> set uses_netloc then bnetloc else netloc)
                in if path = [] \<and> params = [] then
                     urlunparse scheme netloc bpath bparams
                       (if query = [] then bquery else query) fragment
                   else
                     (let base_parts = split_slash bpath;
                          base_parts = (if last base_parts \<noteq> [] then butlast base_parts
                                        else base_parts);
                          segments =
                            (if take 1 path = ''/'' then split_slash path
                             else
                               (let segs = base_parts @ split_slash path
                                in if length segs < 2 then segs
                                   else hd segs # filter (\<lambda>s. s \<noteq> []) (butlast (tl segs))
                                        @ [last segs]));
                          resolved_path = resolve [] segments;
                          resolved_path =
                            (if last segments = ''.'' \<or> last segments = ''..''
                             then resolved_path @ [[]] else resolved_path);
                          joined = join_slash resolved_path
                      in urlunparse scheme netloc (if joined = [] then ''/'' else joined)
                           params query fragment)))))"

section \<open>Failing requests\<close>

text \<open>
  A request fails when \<open>requests.get\<close> or \<open>requests.post\<close> raises (a transport failure)
  or when \<open>raise_for_status()\<close> raises on the response (a status that is not a
  success). \<open>raised\<close> is that exception, if any.
\<close>

definition raised :: "exn + response \<Rightarrow> exn option" where
  "raised ans = (case ans of Inl e \<Rightarrow> Some e | Inr resp \<Rightarrow> raise_for_status resp)"

section \<open>Example documents and worlds\<close>

text \<open>
  Concrete inputs for the examples below. Each \<open>page_...\<close> is the tree of a small HTML
  document; \<open>resp_...\<close> are responses; \<open>world_of\<close> is a world whose three answer
  functions are constant.
\<close>

definition page_item42 :: node where
  "page_item42 =
     Tag ''[document]'' []
       [Tag ''div'' [(''id'', ''item_42'')]
          [Tag ''img'' [(''src'', ''/path/a.jpg'')] [],
           Tag ''dl'' [] [Tag ''dd'' [] [NavigableString ''Caption Text'']]]]"

definition page_section42 :: node where
  "page_section42 =
     Tag ''[document]'' []
       [Tag ''section'' [(''id'', ''item_42'')]
          [Tag ''img'' [(''src'', ''/path/a.jpg'')] [],
           Tag ''dd'' [] [NavigableString ''Caption Text'']]]"

definition page_two_items :: node where
  "page_two_items =
     Tag ''[document]'' []
       [Tag ''div'' [(''id'', ''item_1'')]
          [Tag ''img'' [(''src'', ''/other.jpg'')] [],
           Tag ''dd'' [] [NavigableString ''Other'']],
        Tag ''div'' [(''id'', ''item_42'')]
          [Tag ''img'' [(''src'', ''/path/a.jpg'')] [],
           Tag ''dd'' [] [NavigableString ''Caption Text'']]]"

definition page_trailing :: node where
  "page_trailing =
     Tag ''[document]'' []
       [Tag ''div'' [(''id'', ''item_42abc'')] [Tag ''img'' [(''src'', ''/a.jpg'')] []]]"

definition page_span_first :: node where
  "page_span_first =
     Tag ''[document]'' []
       [Tag ''span'' [(''id'', ''item_7'')] [],
        Tag ''div'' [(''id'', ''item_8'')] []]"

definition page_empty_src :: node where
  "page_empty_src =
     Tag ''[document]'' []
       [Tag ''div'' [(''id'', ''item_7'')] [Tag ''img'' [(''src'', [])] []]]"

definition page_span_item :: node where
  "page_span_item =
     Tag ''[document]'' []
       [Tag ''span'' [(''id'', ''item_7'')] [Tag ''img'' [(''src'', ''/a.jpg'')] []]]"

definition page_no_src :: node where
  "page_no_src =
     Tag ''[document]'' []
       [Tag ''div'' [(''id'', ''item_7'')] [Tag ''img'' [(''alt'', ''x'')] []]]"




definition page_space_src :: node where
  "page_space_src =
     Tag ''[document]'' []
       [Tag ''div'' [(''id'', ''item_5'')]
          [Tag ''img'' [(''src'', ''  '')] [],
           Tag ''dd'' [] [NavigableString '' Hi '']]]"

definition page_relative_src :: node where
  "page_relative_src =
     Tag ''[document]'' []
       [Tag ''div'' [(''id'', ''item_1'')] [Tag ''img'' [(''src'', ''images/x.jpg'')] []]]"

definition page_protocol_relative :: node where
  "page_protocol_relative =
     Tag ''[document]'' []
       [Tag ''div'' [(''id'', ''item_99'')]
          [Tag ''img'' [(''src'', ''//img.example.com/p.png'')] [],
           Tag ''dd'' [] [NavigableString ''New Release'']]]"


definition resp_page :: "node \<Rightarrow> response" where
  "resp_page soup =
     \<lparr>raise_for_status = None, soup_of_text = soup, content = [],
      json_of = Inl (JSONDecodeError ''Expecting value'')\<rparr>"

definition env_example :: "string \<Rightarrow> string option" where
  "env_example k =
     (if k = ''TELEGRAM_BOT_TOKEN'' then Some ''123:abc''
      else if k = ''TELEGRAM_CHAT_ID'' then Some ''-1001''
      else None)"

definition env_no_chat :: "string \<Rightarrow> string option" where
  "env_no_chat k = (if k = ''TELEGRAM_BOT_TOKEN'' then Some ''123:abc'' else None)"

definition resp_image :: response where
  "resp_image =
     \<lparr>raise_for_status = None, soup_of_text = NavigableString [], content = [255, 216, 255],
      json_of = Inl (JSONDecodeError ''Expecting value'')\<rparr>"

definition resp_json :: "json \<Rightarrow> response" where
  "resp_json j =
     \<lparr>raise_for_status = None, soup_of_text = NavigableString [], content = [], json_of = Inr j\<rparr>"

definition resp_status :: "string \<Rightarrow> response" where
  "resp_status msg =
     \<lparr>raise_for_status = Some (HTTPError msg), soup_of_text = NavigableString [], content = [],
      json_of = Inl (JSONDecodeError ''Expecting value'')\<rparr>"

definition world_of ::
  "(string \<Rightarrow> string option) \<Rightarrow> (exn + response) \<Rightarrow> (exn + response) \<Rightarrow> (exn + response) \<Rightarrow> world" where
  "world_of env page_ans image_ans post_ans =
     \<lparr>environ = env, page_get = (\<lambda>u t. page_ans), image_get = (\<lambda>u t. image_ans),
      photo_post = (\<lambda>a d f t. post_ans)\<rparr>"

definition world_page_down :: world where
  "world_page_down =
     world_of env_example (Inl (RequestException ''Read timed out'')) (Inr resp_image)
       (Inr (resp_json (JDict [(''ok'', JBool True)])))"

definition world_image_500 :: world where
  "world_image_500 =
     world_of env_example (Inr (resp_page page_item42)) (Inr (resp_status ''500 Server Error''))
       (Inr (resp_json (JDict [(''ok'', JBool True)])))"

definition world_post_403 :: world where
  "world_post_403 =
     world_of env_example (Inr (resp_page page_item42)) (Inr resp_image)
       (Inr (resp_status ''403 Client Error''))"



section \<open>Basic facts\<close>

lemmas eval_defs =
  bs_find_def matches_tag_def item_id_def any_attrs_def item_re_search_def isdigit_def
  tag_get_def get_text_strip_def text_of_def strip_def isspace_def extract_item_def

lemma startswith_Nil [simp]: "startswith s []"
  by (simp add: startswith_def)

lemma startswith_Cons_Cons [simp]: "startswith (c # s) (d # p) = (c = d \<and> startswith s p)"
  by (auto simp: startswith_def)

lemma startswith_Nil_Cons [simp]: "\<not> startswith [] (d # p)"
  by (simp add: startswith_def)

text \<open>
  \<open>get_first_item\<close> is the request, then the extraction, then the rewriting of the
  extracted \<open>src\<close>: in the source the caption is looked up after the rewriting, and
  neither step has an effect on the other.
\<close>

lemma get_first_item_extract:
  "snd (get_first_item urljoin requests_get url) =
     (case requests_get url 15 of
        Inl e \<Rightarrow> Inl e
      | Inr resp \<Rightarrow>
          (case raise_for_status resp of
             Some e \<Rightarrow> Inl e
           | None \<Rightarrow>
               (case extract_item (soup_of_text resp) of
                  Inl e \<Rightarrow> Inl e
                | Inr (src, caption) \<Rightarrow> Inr (normalize_src urljoin url src, caption))))"
  by (simp add: get_first_item_def extract_item_def normalize_src_def Let_def
           split: sum.splits option.splits)

text \<open>The first element of a list that satisfies a predicate, as a split of the list.\<close>

lemma find_split:
  "(List.find P xs = Some x) =
     (\<exists>pre post. xs = pre @ x # post \<and> P x \<and> (\<forall>y\<in>set pre. \<not> P y))"
proof (induction xs)
  case Nil
  then show ?case by simp
next
  case (Cons a xs)
  show ?case
  proof (cases "P a")
    case True
    have "(\<exists>pre post. a # xs = pre @ x # post \<and> P x \<and> (\<forall>y\<in>set pre. \<not> P y)) = (a = x)"
    proof
      assume "\<exists>pre post. a # xs = pre @ x # post \<and> P x \<and> (\<forall>y\<in>set pre. \<not> P y)"
      then obtain pre post where e: "a # xs = pre @ x # post" and n: "\<forall>y\<in>set pre. \<not> P y"
        by blast
      show "a = x"
      proof (cases pre)
        case Nil
        with e show ?thesis by simp
      next
        case (Cons b bs)
        with e n True show ?thesis by simp
      qed
    next
      assume "a = x"
      with True have "a # xs = [] @ x # xs \<and> P x \<and> (\<forall>y\<in>set []. \<not> P y)" by simp
      then show "\<exists>pre post. a # xs = pre @ x # post \<and> P x \<and> (\<forall>y\<in>set pre. \<not> P y)" by blast
    qed
    with True show ?thesis by simp
  next
    case False
    have "(\<exists>pre post. a # xs = pre @ x # post \<and> P x \<and> (\<forall>y\<in>set pre. \<not> P y)) =
          (\<exists>pre post. xs = pre @ x # post \<and> P x \<and> (\<forall>y\<in>set pre. \<not> P y))"
    proof
      assume "\<exists>pre post. a # xs = pre @ x # post \<and> P x \<and> (\<forall>y\<in>set pre. \<not> P y)"
      then obtain pre post where e: "a # xs = pre @ x # post" and px: "P x"
        and n: "\<forall>y\<in>set pre. \<not> P y" by blast
      show "\<exists>pre post. xs = pre @ x # post \<and> P x \<and> (\<forall>y\<in>set pre. \<not> P y)"
      proof (cases pre)
        case Nil
        with e px False show ?thesis by simp
      next
        case (Cons b bs)
        with e n have "xs = bs @ x # post \<and> (\<forall>y\<in>set bs. \<not> P y)" by simp
        with px show ?thesis by blast
      qed
    next
      assume "\<exists>pre post. xs = pre @ x # post \<and> P x \<and> (\<forall>y\<in>set pre. \<not> P y)"
      then obtain pre post where e: "xs = pre @ x # post" and px: "P x"
        and n: "\<forall>y\<in>set pre. \<not> P y" by blast
      from e n False have "a # xs = (a # pre) @ x # post \<and> (\<forall>y\<in>set (a # pre). \<not> P y)" by simp
      with px show "\<exists>pre post. a # xs = pre @ x # post \<and> P x \<and> (\<forall>y\<in>set pre. \<not> P y)" by blast
    qed
    with False Cons.IH show ?thesis by simp
  qed
qed

lemma bs_find_Some_iff:
  "(bs_find nm flt t = Some d) =
     (\<exists>pre post. descendants t = pre @ d # post \<and> matches_tag nm flt d \<and>
        (\<forall>x\<in>set pre. \<not> matches_tag nm flt x))"
  by (simp add: bs_find_def find_split)

lemma bs_find_None_iff:
  "(bs_find nm flt t = None) = (\<forall>x\<in>set (descendants t). \<not> matches_tag nm flt x)"
  by (auto simp: bs_find_def find_None_iff)

lemma item_re_search_iff:
  "item_re_search v = (\<exists>c rest. v = ''item_'' @ c # rest \<and> isdigit c)"
proof
  assume h: "item_re_search v"
  then have p: "take 5 v = ''item_''" and q: "takeWhile isdigit (drop 5 v) \<noteq> []"
    by (simp_all add: item_re_search_def)
  from q obtain c rest where d: "drop 5 v = c # rest" and dc: "isdigit c"
    by (cases "drop 5 v") (auto split: if_splits)
  have "v = take 5 v @ drop 5 v" by simp
  with p d have "v = ''item_'' @ c # rest" by simp
  with dc show "\<exists>c rest. v = ''item_'' @ c # rest \<and> isdigit c" by blast
next
  assume "\<exists>c rest. v = ''item_'' @ c # rest \<and> isdigit c"
  then show "item_re_search v" by (auto simp: item_re_search_def)
qed

lemma matches_item_div_iff:
  "matches_tag ''div'' item_id d =
     (\<exists>a cs v c rest. d = Tag ''div'' a cs \<and> map_of a ''id'' = Some v \<and>
        v = ''item_'' @ c # rest \<and> isdigit c)"
  by (cases d) (auto simp: matches_tag_def item_id_def item_re_search_iff split: option.splits)

lemma matches_any_iff:
  "matches_tag nm any_attrs d = (\<exists>a cs. d = Tag nm a cs)"
  by (cases d) (auto simp: matches_tag_def any_attrs_def)

lemma strip_all_space: "list_all isspace v \<Longrightarrow> strip v = []"
proof -
  assume "list_all isspace v"
  then have d: "dropWhile isspace v = []" by (induction v) simp_all
  show ?thesis unfolding strip_def d by simp
qed

lemma extract_item_found:
  "bs_find ''div'' item_id soup = Some d \<Longrightarrow> bs_find ''img'' any_attrs d = Some img \<Longrightarrow>
   tag_get img ''src'' = Some v \<Longrightarrow> v \<noteq> [] \<Longrightarrow>
   extract_item soup =
     Inr (strip v, case bs_find ''dd'' any_attrs d of Some x \<Rightarrow> get_text_strip x | None \<Rightarrow> [])"
  by (simp add: extract_item_def)

lemma has_scheme_not_slash: "has_scheme s \<Longrightarrow> \<not> startswith s ''/''"
  by (cases s) (auto simp: has_scheme_def isalpha_def)

lemma has_scheme_https: "has_scheme (''https:'' @ s)"
  by (simp add: has_scheme_def isalpha_def scheme_char_def isdigit_def)

lemma extract_item_Inl_iff:
  "(\<exists>e. extract_item soup = Inl e) =
     (bs_find ''div'' item_id soup = None \<or>
      (\<exists>d. bs_find ''div'' item_id soup = Some d \<and>
         (bs_find ''img'' any_attrs d = None \<or>
          (\<exists>img. bs_find ''img'' any_attrs d = Some img \<and>
             (tag_get img ''src'' = None \<or> tag_get img ''src'' = Some [])))))"
  by (auto simp: extract_item_def split: option.splits)

text \<open>
  The join of an http or https base and a reference that starts with a slash begins with
  the base's scheme: every branch that such a pair can take ends in \<open>urlunparse\<close> with
  that scheme.
\<close>

lemma startswith_append: "startswith s p \<Longrightarrow> \<exists>rest. s = p @ rest"
  unfolding startswith_def by (metis append_take_drop_id)

lemmas char_defs = isalpha_def isdigit_def scheme_char_def c0_control_or_space_def
  unsafe_url_byte_def lower_def

lemma urlsplit_https: "fst (urlsplit (''https://'' @ rest) sch) = ''https''"
  by (simp add: urlsplit_def Let_def case_prod_beta char_defs)

lemma urlsplit_http: "fst (urlsplit (''http://'' @ rest) sch) = ''http''"
  by (simp add: urlsplit_def Let_def case_prod_beta char_defs)

lemma urlsplit_slash_https: "fst (urlsplit (CHR ''/'' # t) ''https'') = ''https''"
  by (simp add: urlsplit_def Let_def case_prod_beta char_defs)

lemma urlsplit_slash_http: "fst (urlsplit (CHR ''/'' # t) ''http'') = ''http''"
  by (simp add: urlsplit_def Let_def case_prod_beta char_defs)

lemma fst_urlparse: "fst (urlparse url sch) = fst (urlsplit url sch)"
  by (simp add: urlparse_def Let_def case_prod_beta)

lemma urlunparse_scheme:
  "sch \<noteq> [] \<Longrightarrow> \<exists>rest. urlunparse sch n p pa q f = sch @ '':'' @ rest"
  by (simp add: urlunparse_def urlunsplit_def Let_def)

lemma has_scheme_http: "has_scheme (''http:'' @ s)"
  by (simp add: has_scheme_def char_defs)

lemma has_scheme_urlunparse [simp]:
  "has_scheme (urlunparse ''https'' n p pa q f)" "has_scheme (urlunparse ''http'' n p pa q f)"
proof -
  obtain r where "urlunparse ''https'' n p pa q f = ''https'' @ '':'' @ r"
    using urlunparse_scheme [of "''https''" n p pa q f] by auto
  then show "has_scheme (urlunparse ''https'' n p pa q f)"
    using has_scheme_https [of r] by simp
  obtain r where "urlunparse ''http'' n p pa q f = ''http'' @ '':'' @ r"
    using urlunparse_scheme [of "''http''" n p pa q f] by auto
  then show "has_scheme (urlunparse ''http'' n p pa q f)"
    using has_scheme_http [of r] by simp
qed

lemma urllib_urljoin_scheme:
  assumes b: "fst (urlparse base []) = sch" and u: "fst (urlparse (CHR ''/'' # t) sch) = sch"
    and s: "sch = ''https'' \<or> sch = ''http''" and nb: "base \<noteq> []"
  shows "has_scheme (urllib_urljoin base (CHR ''/'' # t))"
proof -
  obtain bn bp bpa bq bf where pb: "urlparse base [] = (sch, bn, bp, bpa, bq, bf)"
    using b by (cases "urlparse base []") auto
  obtain n p pa q f where pu: "urlparse (CHR ''/'' # t) sch = (sch, n, p, pa, q, f)"
    using u by (cases "urlparse (CHR ''/'' # t) sch") auto
  from s show ?thesis
  proof
    assume "sch = ''https''"
    with pb pu nb show ?thesis
      by (simp add: urllib_urljoin_def Let_def uses_relative_def)
  next
    assume "sch = ''http''"
    with pb pu nb show ?thesis
      by (simp add: urllib_urljoin_def Let_def uses_relative_def)
  qed
qed

lemma urlsplit_Nil: "fst (urlsplit [] []) = []"
  by (simp add: urlsplit_def Let_def)

lemma urllib_urljoin_absolute:
  assumes "fst (urlsplit url []) = ''http'' \<or> fst (urlsplit url []) = ''https''"
    and "startswith s ''/''"
  shows "has_scheme (urllib_urljoin url s)"
proof -
  from assms(2) obtain t where s: "s = CHR ''/'' # t" by (cases s) auto
  have n: "url \<noteq> []" using assms(1) urlsplit_Nil by auto
  from assms(1) show ?thesis
  proof
    assume h: "fst (urlsplit url []) = ''http''"
    have 2: "fst (urlparse (CHR ''/'' # t) ''http'') = ''http''"
      unfolding fst_urlparse by (rule urlsplit_slash_http)
    from h 2 n show ?thesis
      unfolding s by (intro urllib_urljoin_scheme [where sch = "''http''"]) (simp_all add: fst_urlparse)
  next
    assume h: "fst (urlsplit url []) = ''https''"
    have 2: "fst (urlparse (CHR ''/'' # t) ''https'') = ''https''"
      unfolding fst_urlparse by (rule urlsplit_slash_https)
    from h 2 n show ?thesis
      unfolding s by (intro urllib_urljoin_scheme [where sch = "''https''"]) (simp_all add: fst_urlparse)
  qed
qed

lemma urlsplit_URL: "fst (urlsplit URL []) = ''https''"
  using urlsplit_https [of "''www.nogizaka46shop.com/category/426''" "[]"]
  by (simp add: URL_def)


lemma urljoin_URL_path:
  "urllib_urljoin ''https://www.nogizaka46shop.com/category/426'' ''/path/a.jpg''
     = ''https://www.nogizaka46shop.com/path/a.jpg''"
  by (simp add: urllib_urljoin_def urlparse_def urlsplit_def urlunparse_def urlunsplit_def
        splitnetloc_def splitparams_def split1_def uses_relative_def uses_netloc_def
        uses_params_def Let_def char_defs)

text \<open>
  The shape of a run: which requests each stage sends, what a failing request makes of its
  stage, and the four ways \<open>main\<close> can go.
\<close>

lemma fst_get_first_item: "fst (get_first_item uj rg url) = [GET url 15]"
  by (simp add: get_first_item_def)

lemma fst_download_image_bytes: "fst (download_image_bytes rg u) = [GET u 20]"
  by (simp add: download_image_bytes_def)

lemma get_first_item_raised:
  "raised (rg url 15) = Some e \<Longrightarrow> snd (get_first_item uj rg url) = Inl e"
  by (cases "rg url 15") (simp_all add: get_first_item_def raised_def)

lemma download_image_bytes_raised:
  "raised (rg u 20) = Some e \<Longrightarrow> snd (download_image_bytes rg u) = Inl e"
  by (cases "rg u 20") (simp_all add: download_image_bytes_def raised_def)

lemma send_photo_telegram_eq:
  "send_photo_telegram rp tok chat bytes cap =
     ([POST (''https://api.telegram.org/bot'' @ tok @ ''/sendPhoto'')
         [(''chat_id'', chat), (''caption'', cap)] [(''photo'', ''image.jpg'', bytes)] 30],
      case rp (''https://api.telegram.org/bot'' @ tok @ ''/sendPhoto'')
             [(''chat_id'', chat), (''caption'', cap)] [(''photo'', ''image.jpg'', bytes)] 30 of
        Inl e \<Rightarrow> Inl e
      | Inr resp \<Rightarrow> (case raise_for_status resp of Some e \<Rightarrow> Inl e | None \<Rightarrow> json_of resp))"
  unfolding send_photo_telegram_def Let_def by (rule refl)

lemma send_photo_telegram_request:
  "\<exists>a d f. fst (send_photo_telegram rp tok chat bytes cap) = [POST a d f 30]"
  by (simp add: send_photo_telegram_eq)

lemma send_photo_telegram_raised:
  "send_photo_telegram rp tok chat bytes cap = ([POST a d f t], r) \<Longrightarrow>
   raised (rp a d f t) = Some e \<Longrightarrow> r = Inl e"
  by (cases "rp a d f t") (auto simp: send_photo_telegram_eq raised_def)


lemma py_not_iff: "py_not x = (x = None \<or> x = Some [])"
  by (cases x) (simp_all add: py_not_def)

lemma main_cases:
  obtains
    (config) "py_not (environ w ''TELEGRAM_BOT_TOKEN'') \<or> py_not (environ w ''TELEGRAM_CHAT_ID'')"
      and "main uj w = \<lparr>events = [Print [Str usage]], exit_code = 2\<rparr>"
  | (page) e where "snd (get_first_item uj (page_get w) URL) = Inl e"
      and "main uj w =
             \<lparr>events = [Request (GET URL 15), Print [Str ''Error fetching/parsing page:'', Exn e]],
              exit_code = 1\<rparr>"
  | (img) u c e where "snd (get_first_item uj (page_get w) URL) = Inr (u, c)"
      and "snd (download_image_bytes (image_get w) u) = Inl e"
      and "main uj w =
             \<lparr>events = [Request (GET URL 15), Print [Str ''Found image:'', Str u],
                        Print [Str ''Caption:'', Str c], Request (GET u 20),
                        Print [Str ''Error downloading image:'', Exn e]],
              exit_code = 1\<rparr>"
  | (post) u c b tok chat a d f r where "snd (get_first_item uj (page_get w) URL) = Inr (u, c)"
      and "snd (download_image_bytes (image_get w) u) = Inr b"
      and "send_photo_telegram (photo_post w) tok chat b c = ([POST a d f 30], r)"
      and "main uj w =
             \<lparr>events = [Request (GET URL 15), Print [Str ''Found image:'', Str u],
                        Print [Str ''Caption:'', Str c], Request (GET u 20),
                        Request (POST a d f 30),
                        (case r of
                           Inl e \<Rightarrow> Print [Str ''Error sending to Telegram:'', Exn e]
                         | Inr res \<Rightarrow>
                             (case res_get res ''ok'' of
                                Inl e \<Rightarrow> Traceback e
                              | Inr ok \<Rightarrow> Print [Str ''Telegram API returned ok='', Val ok]))],
              exit_code =
                (case r of
                   Inl e \<Rightarrow> 1
                 | Inr res \<Rightarrow> (case res_get res ''ok'' of Inl e \<Rightarrow> 1 | Inr ok \<Rightarrow> 0))\<rparr>"
proof (cases "py_not (environ w ''TELEGRAM_BOT_TOKEN'') \<or> py_not (environ w ''TELEGRAM_CHAT_ID'')")
  case True
  then have "main uj w = \<lparr>events = [Print [Str usage]], exit_code = 2\<rparr>"
    by (simp add: main_def Let_def)
  with True show ?thesis by (rule config)
next
  case False
  obtain r1 where g: "get_first_item uj (page_get w) URL = ([GET URL 15], r1)"
    using fst_get_first_item [of uj "page_get w" URL]
    by (cases "get_first_item uj (page_get w) URL") simp
  show ?thesis
  proof (cases r1)
    case (Inl e)
    have "main uj w =
             \<lparr>events = [Request (GET URL 15), Print [Str ''Error fetching/parsing page:'', Exn e]],
              exit_code = 1\<rparr>"
      using False g Inl by (simp add: main_def Let_def)
    moreover have "snd (get_first_item uj (page_get w) URL) = Inl e" using g Inl by simp
    ultimately show ?thesis by (rule page [rotated])
  next
    case (Inr p)
    obtain u c where p: "p = (u, c)" by (cases p)
    have s1: "snd (get_first_item uj (page_get w) URL) = Inr (u, c)" using g Inr p by simp
    obtain r2 where dl: "download_image_bytes (image_get w) u = ([GET u 20], r2)"
      using fst_download_image_bytes [of "image_get w" u]
      by (cases "download_image_bytes (image_get w) u") simp
    show ?thesis
    proof (cases r2)
      case (Inl e)
      have "main uj w =
             \<lparr>events = [Request (GET URL 15), Print [Str ''Found image:'', Str u],
                        Print [Str ''Caption:'', Str c], Request (GET u 20),
                        Print [Str ''Error downloading image:'', Exn e]],
              exit_code = 1\<rparr>"
        using False g Inr p dl Inl by (simp add: main_def Let_def)
      moreover have "snd (download_image_bytes (image_get w) u) = Inl e" using dl Inl by simp
      ultimately show ?thesis using s1 img by blast
    next
      case b: (Inr b)
      define tok where "tok = (case environ w ''TELEGRAM_BOT_TOKEN'' of Some t \<Rightarrow> t | None \<Rightarrow> [])"
      define chat where "chat = (case environ w ''TELEGRAM_CHAT_ID'' of Some t \<Rightarrow> t | None \<Rightarrow> [])"
      obtain a d f r where sp:
        "send_photo_telegram (photo_post w) tok chat b c = ([POST a d f 30], r)"
        using send_photo_telegram_request [of "photo_post w" tok chat b c]
        by (cases "send_photo_telegram (photo_post w) tok chat b c") auto
      have s2: "snd (download_image_bytes (image_get w) u) = Inr b" using dl b by simp
      have m: "main uj w =
             \<lparr>events = [Request (GET URL 15), Print [Str ''Found image:'', Str u],
                        Print [Str ''Caption:'', Str c], Request (GET u 20),
                        Request (POST a d f 30),
                        (case r of
                           Inl e \<Rightarrow> Print [Str ''Error sending to Telegram:'', Exn e]
                         | Inr res \<Rightarrow>
                             (case res_get res ''ok'' of
                                Inl e \<Rightarrow> Traceback e
                              | Inr ok \<Rightarrow> Print [Str ''Telegram API returned ok='', Val ok]))],
              exit_code =
                (case r of
                   Inl e \<Rightarrow> 1
                 | Inr res \<Rightarrow> (case res_get res ''ok'' of Inl e \<Rightarrow> 1 | Inr ok \<Rightarrow> 0))\<rparr>"
        using False g Inr p dl b sp [unfolded tok_def chat_def]
        by (simp add: main_def Let_def split: sum.splits)
      from s1 s2 sp m show ?thesis by (rule post)
    qed
  qed
qed

lemmas run_defs =
  main_def Let_def world_of_def env_example_def py_not_def get_first_item_def
  download_image_bytes_def send_photo_telegram_def res_get_def resp_page_def resp_image_def
  resp_json_def resp_status_def raised_def urljoin_URL_path URL_def
  page_item42_def startswith_def eval_defs

text \<open>Five runs, evaluated.\<close>

lemma run_page_down:
  "main urllib_urljoin world_page_down =
     \<lparr>events = [Request (GET URL 15),
                Print [Str ''Error fetching/parsing page:'', Exn (RequestException ''Read timed out'')]],
      exit_code = 1\<rparr>"
  by (simp add: world_page_down_def run_defs)

lemma run_image_500:
  "main urllib_urljoin world_image_500 =
     \<lparr>events = [Request (GET URL 15),
                Print [Str ''Found image:'', Str ''https://www.nogizaka46shop.com/path/a.jpg''],
                Print [Str ''Caption:'', Str ''Caption Text''],
                Request (GET ''https://www.nogizaka46shop.com/path/a.jpg'' 20),
                Print [Str ''Error downloading image:'', Exn (HTTPError ''500 Server Error'')]],
      exit_code = 1\<rparr>"
  by (simp add: world_image_500_def run_defs)

lemma run_post_403:
  "main urllib_urljoin world_post_403 =
     \<lparr>events = [Request (GET URL 15),
                Print [Str ''Found image:'', Str ''https://www.nogizaka46shop.com/path/a.jpg''],
                Print [Str ''Caption:'', Str ''Caption Text''],
                Request (GET ''https://www.nogizaka46shop.com/path/a.jpg'' 20),
                Request (POST ''https://api.telegram.org/bot123:abc/sendPhoto''
                           [(''chat_id'', ''-1001''), (''caption'', ''Caption Text'')]
                           [(''photo'', ''image.jpg'', [255, 216, 255])] 30),
                Print [Str ''Error sending to Telegram:'', Exn (HTTPError ''403 Client Error'')]],
      exit_code = 1\<rparr>"
  by (simp add: world_post_403_def run_defs)



section \<open>The extraction\<close>

text \<open>
  Claim C1, as amended. The claim speaks of any document that contains an element with
  \<open>id="item_42"\<close>; the function looks at \<open>div\<close> elements only and takes the first one, in
  document order, whose id matches. So: when the first \<open>div\<close> whose id matches the pattern
  has the id \<open>item_42\<close>, the first \<open>img\<close> below it has the \<open>src\<close> value
  \<open>/path/a.jpg\<close>, and the first \<open>dd\<close> below it is \<open><dd>Caption Text</dd>\<close>, the
  extraction returns the pair of \<open>/path/a.jpg\<close> and \<open>Caption Text\<close>.
\<close>

theorem extract_item_42:
  assumes "descendants soup = pre @ Tag ''div'' a cs # post"
    and "\<forall>x\<in>set pre. \<not> matches_tag ''div'' item_id x"
    and "map_of a ''id'' = Some ''item_42''"
    and "descendants (Tag ''div'' a cs) = ipre @ Tag ''img'' ia ics # ipost"
    and "\<forall>x\<in>set ipre. \<not> matches_tag ''img'' any_attrs x"
    and "map_of ia ''src'' = Some ''/path/a.jpg''"
    and "descendants (Tag ''div'' a cs) = dpre @ Tag ''dd'' da [NavigableString ''Caption Text''] # dpost"
    and "\<forall>x\<in>set dpre. \<not> matches_tag ''dd'' any_attrs x"
  shows "extract_item soup = Inr (''/path/a.jpg'', ''Caption Text'')"
proof -
  have m: "matches_tag ''div'' item_id (Tag ''div'' a cs)"
    using assms(3) by (simp add: matches_tag_def item_id_def item_re_search_def isdigit_def)
  have d: "bs_find ''div'' item_id soup = Some (Tag ''div'' a cs)"
    using assms(1,2) m by (auto simp: bs_find_Some_iff)
  have i: "bs_find ''img'' any_attrs (Tag ''div'' a cs) = Some (Tag ''img'' ia ics)"
    unfolding bs_find_Some_iff using assms(4,5) by (auto simp: matches_tag_def any_attrs_def)
  have c: "bs_find ''dd'' any_attrs (Tag ''div'' a cs)
             = Some (Tag ''dd'' da [NavigableString ''Caption Text''])"
    unfolding bs_find_Some_iff using assms(7,8) by (auto simp: matches_tag_def any_attrs_def)
  have s: "tag_get (Tag ''img'' ia ics) ''src'' = Some ''/path/a.jpg''"
    using assms(6) by (simp add: tag_get_def)
  have t: "get_text_strip (Tag ''dd'' da [NavigableString ''Caption Text'']) = ''Caption Text''"
    by (simp add: get_text_strip_def text_of_def strip_def isspace_def)
  have u: "strip ''/path/a.jpg'' = ''/path/a.jpg''"
    by (simp add: strip_def isspace_def)
  show ?thesis
    using extract_item_found [OF d i s] c t u by simp
qed

text \<open>The theorem at \<open><div id="item_42"><img src="/path/a.jpg"><dl><dd>Caption Text</dd></dl></div>\<close>.\<close>

theorem extract_item_42_witness:
  "extract_item page_item42 = Inr (''/path/a.jpg'', ''Caption Text'')"
proof -
  let ?img = "Tag ''img'' [(''src'', ''/path/a.jpg'')] []"
  let ?dd = "Tag ''dd'' [] [NavigableString ''Caption Text'']"
  let ?dl = "Tag ''dl'' [] [?dd]"
  let ?div = "Tag ''div'' [(''id'', ''item_42'')] [?img, ?dl]"
  have 1: "descendants page_item42 = [] @ ?div # [?img, ?dl, ?dd, NavigableString ''Caption Text'']"
    by (simp add: page_item42_def)
  have 2: "\<forall>x\<in>set []. \<not> matches_tag ''div'' item_id x" by simp
  have 3: "map_of [(''id'', ''item_42'')] ''id'' = Some ''item_42''" by simp
  have 4: "descendants ?div = [] @ ?img # [?dl, ?dd, NavigableString ''Caption Text'']" by simp
  have 5: "\<forall>x\<in>set []. \<not> matches_tag ''img'' any_attrs x" by simp
  have 6: "map_of [(''src'', ''/path/a.jpg'')] ''src'' = Some ''/path/a.jpg''" by simp
  have 7: "descendants ?div = [?img, ?dl] @ ?dd # [NavigableString ''Caption Text'']" by simp
  have 8: "\<forall>x\<in>set [?img, ?dl]. \<not> matches_tag ''dd'' any_attrs x"
    by (simp add: matches_tag_def)
  show ?thesis by (rule extract_item_42 [OF 1 2 3 4 5 6 7 8])
qed

text \<open>
  The claim as stated fails: \<open>page_section42\<close> holds a \<open>section\<close> element with the id, the
  image and the caption, and the extraction raises; \<open>page_two_items\<close> holds the \<open>div\<close> of
  the claim after another item, and the extraction returns the other item.
\<close>

theorem extract_item_42_counterexample:
  "hd (descendants page_section42)
     = Tag ''section'' [(''id'', ''item_42'')]
         [Tag ''img'' [(''src'', ''/path/a.jpg'')] [],
          Tag ''dd'' [] [NavigableString ''Caption Text'']] \<and>
   extract_item page_section42 = Inl (RuntimeError ''No item div found on the page'') \<and>
   Tag ''div'' [(''id'', ''item_42'')]
         [Tag ''img'' [(''src'', ''/path/a.jpg'')] [],
          Tag ''dd'' [] [NavigableString ''Caption Text'']] \<in> set (descendants page_two_items) \<and>
   extract_item page_two_items = Inr (''/other.jpg'', ''Other'')"
  by (simp add: page_section42_def page_two_items_def eval_defs)

text \<open>
  Claim C2, as amended. The element the extraction works on is
  \<open>bs_find ''div'' item_id soup\<close>. It is the first node in document order that is a
  \<open>div\<close> whose id begins with \<open>item_\<close> and a digit; what follows that digit is not
  looked at, and elements other than \<open>div\<close> are passed over.
\<close>

theorem first_item_div:
  "(bs_find ''div'' item_id soup = Some d) =
     (\<exists>pre post. descendants soup = pre @ d # post \<and>
        (\<exists>a cs v c rest. d = Tag ''div'' a cs \<and> map_of a ''id'' = Some v \<and>
           v = ''item_'' @ c # rest \<and> isdigit c) \<and>
        (\<forall>x\<in>set pre. \<not> (\<exists>a cs v c rest. x = Tag ''div'' a cs \<and> map_of a ''id'' = Some v \<and>
           v = ''item_'' @ c # rest \<and> isdigit c)))"
  unfolding bs_find_Some_iff matches_item_div_iff ..

theorem first_item_div_witness:
  "bs_find ''div'' item_id page_span_first = Some (Tag ''div'' [(''id'', ''item_8'')] []) \<and>
   (\<exists>pre post. descendants page_span_first = pre @ Tag ''div'' [(''id'', ''item_8'')] [] # post \<and>
        (\<exists>a cs v c rest. Tag ''div'' [(''id'', ''item_8'')] [] = Tag ''div'' a cs \<and>
           map_of a ''id'' = Some v \<and> v = ''item_'' @ c # rest \<and> isdigit c) \<and>
        (\<forall>x\<in>set pre. \<not> (\<exists>a cs v c rest. x = Tag ''div'' a cs \<and> map_of a ''id'' = Some v \<and>
           v = ''item_'' @ c # rest \<and> isdigit c)))"
proof -
  have f: "bs_find ''div'' item_id page_span_first = Some (Tag ''div'' [(''id'', ''item_8'')] [])"
    by (simp add: page_span_first_def eval_defs)
  from f first_item_div [of page_span_first "Tag ''div'' [(''id'', ''item_8'')] []"]
  show ?thesis by blast
qed

text \<open>
  The claim as stated fails: the \<open>div\<close> with id \<open>item_42abc\<close> is selected although the
  anchored pattern rejects its id, and in \<open>page_span_first\<close> the first element whose id
  matches the anchored pattern is a \<open>span\<close>, which is not selected.
\<close>

theorem first_item_div_counterexample:
  "bs_find ''div'' item_id page_trailing
     = Some (Tag ''div'' [(''id'', ''item_42abc'')] [Tag ''img'' [(''src'', ''/a.jpg'')] []]) \<and>
   \<not> spec_item_id_anchored ''item_42abc'' \<and>
   extract_item page_trailing = Inr (''/a.jpg'', []) \<and>
   descendants page_span_first
     = [Tag ''span'' [(''id'', ''item_7'')] [], Tag ''div'' [(''id'', ''item_8'')] []] \<and>
   spec_item_id_anchored ''item_7'' \<and>
   bs_find ''div'' item_id page_span_first = Some (Tag ''div'' [(''id'', ''item_8'')] [])"
  by (simp add: page_trailing_def page_span_first_def spec_item_id_anchored_def eval_defs)

text \<open>
  Claim C5, as amended. The extraction raises exactly when no \<open>div\<close> has an id that
  matches, or the first such \<open>div\<close> has no \<open>img\<close> below it, or the first \<open>img\<close> below
  it has no \<open>src\<close> attribute or an empty one; the exception is one of the two
  \<open>RuntimeError\<close>s. The three cases of the claim follow: no element at all with a
  matching id, no \<open>img\<close> in the item, no \<open>src\<close> on its first \<open>img\<close>.
\<close>

theorem extract_item_fails_iff:
  "((\<exists>e. extract_item soup = Inl e) =
      ((\<forall>x\<in>set (descendants soup). \<not> matches_tag ''div'' item_id x) \<or>
       (\<exists>d. bs_find ''div'' item_id soup = Some d \<and>
          ((\<forall>x\<in>set (descendants d). \<not> (\<exists>a cs. x = Tag ''img'' a cs)) \<or>
           (\<exists>img. bs_find ''img'' any_attrs d = Some img \<and>
              (tag_get img ''src'' = None \<or> tag_get img ''src'' = Some [])))))) \<and>
   (\<forall>e. extract_item soup = Inl e \<longrightarrow>
      e = RuntimeError ''No item div found on the page'' \<or>
      e = RuntimeError ''No image tag found in the first item div'') \<and>
   ((\<forall>x\<in>set (descendants soup). \<forall>n a cs. x = Tag n a cs \<longrightarrow> \<not> item_id a) \<longrightarrow>
      extract_item soup = Inl (RuntimeError ''No item div found on the page'')) \<and>
   (\<forall>d. bs_find ''div'' item_id soup = Some d \<and>
        (\<forall>x\<in>set (descendants d). \<not> (\<exists>a cs. x = Tag ''img'' a cs)) \<longrightarrow>
      extract_item soup = Inl (RuntimeError ''No image tag found in the first item div'')) \<and>
   (\<forall>d img. bs_find ''div'' item_id soup = Some d \<and>
        bs_find ''img'' any_attrs d = Some img \<and> tag_get img ''src'' = None \<longrightarrow>
      extract_item soup = Inl (RuntimeError ''No image tag found in the first item div''))"
proof -
  have a: "(\<exists>e. extract_item soup = Inl e) =
      ((\<forall>x\<in>set (descendants soup). \<not> matches_tag ''div'' item_id x) \<or>
       (\<exists>d. bs_find ''div'' item_id soup = Some d \<and>
          ((\<forall>x\<in>set (descendants d). \<not> (\<exists>a cs. x = Tag ''img'' a cs)) \<or>
           (\<exists>img. bs_find ''img'' any_attrs d = Some img \<and>
              (tag_get img ''src'' = None \<or> tag_get img ''src'' = Some [])))))"
    unfolding extract_item_Inl_iff bs_find_None_iff matches_any_iff ..
  have b: "\<forall>e. extract_item soup = Inl e \<longrightarrow>
      e = RuntimeError ''No item div found on the page'' \<or>
      e = RuntimeError ''No image tag found in the first item div''"
    by (auto simp: extract_item_def split: option.splits if_splits)
  have c: "(\<forall>x\<in>set (descendants soup). \<forall>n a cs. x = Tag n a cs \<longrightarrow> \<not> item_id a) \<longrightarrow>
      extract_item soup = Inl (RuntimeError ''No item div found on the page'')"
  proof
    assume h: "\<forall>x\<in>set (descendants soup). \<forall>n a cs. x = Tag n a cs \<longrightarrow> \<not> item_id a"
    have "\<forall>x\<in>set (descendants soup). \<not> matches_tag ''div'' item_id x"
    proof
      fix x assume "x \<in> set (descendants soup)"
      with h show "\<not> matches_tag ''div'' item_id x"
        by (cases x) (auto simp: matches_tag_def)
    qed
    then have "bs_find ''div'' item_id soup = None" by (simp add: bs_find_None_iff)
    then show "extract_item soup = Inl (RuntimeError ''No item div found on the page'')"
      by (simp add: extract_item_def)
  qed
  have d: "\<forall>d. bs_find ''div'' item_id soup = Some d \<and>
        (\<forall>x\<in>set (descendants d). \<not> (\<exists>a cs. x = Tag ''img'' a cs)) \<longrightarrow>
      extract_item soup = Inl (RuntimeError ''No image tag found in the first item div'')"
  proof (intro allI impI)
    fix d
    assume h: "bs_find ''div'' item_id soup = Some d \<and>
        (\<forall>x\<in>set (descendants d). \<not> (\<exists>a cs. x = Tag ''img'' a cs))"
    then have "bs_find ''img'' any_attrs d = None"
      by (simp add: bs_find_None_iff matches_any_iff)
    with h show "extract_item soup = Inl (RuntimeError ''No image tag found in the first item div'')"
      by (simp add: extract_item_def)
  qed
  have e: "\<forall>d img. bs_find ''div'' item_id soup = Some d \<and>
        bs_find ''img'' any_attrs d = Some img \<and> tag_get img ''src'' = None \<longrightarrow>
      extract_item soup = Inl (RuntimeError ''No image tag found in the first item div'')"
    by (simp add: extract_item_def)
  from a b c d e show ?thesis by blast
qed

text \<open>The theorem at \<open><div id="item_7"><img alt="x"></div>\<close>.\<close>

theorem extract_item_fails_iff_witness:
  "(\<exists>e. extract_item page_no_src = Inl e) \<and>
   bs_find ''div'' item_id page_no_src
     = Some (Tag ''div'' [(''id'', ''item_7'')] [Tag ''img'' [(''alt'', ''x'')] []]) \<and>
   bs_find ''img'' any_attrs (Tag ''div'' [(''id'', ''item_7'')] [Tag ''img'' [(''alt'', ''x'')] []])
     = Some (Tag ''img'' [(''alt'', ''x'')] []) \<and>
   tag_get (Tag ''img'' [(''alt'', ''x'')] []) ''src'' = None \<and>
   extract_item page_no_src = Inl (RuntimeError ''No image tag found in the first item div'')"
proof -
  let ?img = "Tag ''img'' [(''alt'', ''x'')] []"
  let ?d = "Tag ''div'' [(''id'', ''item_7'')] [?img]"
  have 1: "bs_find ''div'' item_id page_no_src = Some ?d"
    by (simp add: page_no_src_def eval_defs)
  have 2: "bs_find ''img'' any_attrs ?d = Some ?img"
    by (simp add: eval_defs)
  have 3: "tag_get ?img ''src'' = None"
    by (simp add: eval_defs)
  from 1 2 3 extract_item_fails_iff [of page_no_src]
  have "extract_item page_no_src = Inl (RuntimeError ''No image tag found in the first item div'')"
    by blast
  with 1 2 3 show ?thesis by simp
qed

text \<open>
  "Exactly when the structure is missing" fails as stated: \<open>page_empty_src\<close> has the item,
  the image and a \<open>src\<close> attribute (with the empty value), and \<open>page_span_item\<close> has an
  element with a matching id, an image and a \<open>src\<close>; the extraction raises on both.
\<close>

theorem extract_item_fails_iff_counterexample:
  "extract_item page_empty_src = Inl (RuntimeError ''No image tag found in the first item div'') \<and>
   bs_find ''div'' item_id page_empty_src
     = Some (Tag ''div'' [(''id'', ''item_7'')] [Tag ''img'' [(''src'', [])] []]) \<and>
   bs_find ''img'' any_attrs (Tag ''div'' [(''id'', ''item_7'')] [Tag ''img'' [(''src'', [])] []])
     = Some (Tag ''img'' [(''src'', [])] []) \<and>
   tag_get (Tag ''img'' [(''src'', [])] []) ''src'' = Some [] \<and>
   extract_item page_span_item = Inl (RuntimeError ''No item div found on the page'') \<and>
   descendants page_span_item
     = [Tag ''span'' [(''id'', ''item_7'')] [Tag ''img'' [(''src'', ''/a.jpg'')] []],
        Tag ''img'' [(''src'', ''/a.jpg'')] []] \<and>
   item_id [(''id'', ''item_7'')] \<and> spec_item_id_anchored ''item_7''"
  by (simp add: page_empty_src_def page_span_item_def spec_item_id_anchored_def eval_defs)




text \<open>
  Claim C10. When the first \<open>img\<close> below the item has a \<open>src\<close> made of one or more
  whitespace characters only, \<open>get_first_item\<close> does not raise and returns the empty
  string as the image URL: the check of line 37 sees the untrimmed value, and neither
  rewriting case applies to the empty string.
\<close>

theorem blank_src_gives_empty_url:
  assumes "bs_find ''div'' item_id soup = Some d"
    and "bs_find ''img'' any_attrs d = Some img"
    and "tag_get img ''src'' = Some v"
    and "v \<noteq> []"
    and "list_all isspace v"
    and "requests_get url 15 = Inr resp"
    and "raise_for_status resp = None"
    and "soup_of_text resp = soup"
  shows "\<exists>caption. snd (get_first_item urljoin requests_get url) = Inr ([], caption)"
proof -
  have s: "strip v = []" using assms(5) by (rule strip_all_space)
  have n: "normalize_src urljoin url [] = []" by (simp add: normalize_src_def)
  from extract_item_found [OF assms(1-4)] s
  have "\<exists>c. extract_item soup = Inr ([], c)" by simp
  then show ?thesis
    using assms(6-8) n by (auto simp: get_first_item_extract)
qed

text \<open>The theorem at \<open><div id="item_5"><img src="  "><dd> Hi </dd></div>\<close>.\<close>

theorem blank_src_gives_empty_url_witness:
  "snd (get_first_item urllib_urljoin (\<lambda>u t. Inr (resp_page page_space_src)) URL) = Inr ([], ''Hi'')"
proof -
  let ?img = "Tag ''img'' [(''src'', ''  '')] []"
  let ?dd = "Tag ''dd'' [] [NavigableString '' Hi '']"
  let ?d = "Tag ''div'' [(''id'', ''item_5'')] [?img, ?dd]"
  let ?rg = "\<lambda>(u::string) (t::nat). (Inr (resp_page page_space_src) :: exn + response)"
  have 1: "bs_find ''div'' item_id page_space_src = Some ?d"
    by (simp add: page_space_src_def eval_defs)
  have 2: "bs_find ''img'' any_attrs ?d = Some ?img" by (simp add: eval_defs)
  have 3: "tag_get ?img ''src'' = Some ''  ''" by (simp add: eval_defs)
  have 4: "''  '' \<noteq> []" by simp
  have 5: "list_all isspace ''  ''" by (simp add: isspace_def)
  have 6: "?rg URL 15 = Inr (resp_page page_space_src)" by simp
  have 7: "raise_for_status (resp_page page_space_src) = None" by (simp add: resp_page_def)
  have 8: "soup_of_text (resp_page page_space_src) = page_space_src" by (simp add: resp_page_def)
  have 9: "snd (get_first_item urllib_urljoin ?rg URL) = Inr ([], ''Hi'')"
    by (simp add: get_first_item_def resp_page_def page_space_src_def eval_defs)
  from blank_src_gives_empty_url [OF 1 2 3 4 5 6 7 8, of urllib_urljoin] 9
  show ?thesis by simp
qed

section \<open>The rewriting of the image reference\<close>



text \<open>
  Claim C4, as amended. When \<open>get_first_item\<close> succeeds on an http or https page URL, the
  reference it returns is the trimmed \<open>src\<close> value \<open>s\<close> of the item's first image,
  rewritten by lines 42 to 46, and it is an absolute URL (it begins with a scheme)
  whenever \<open>s\<close> starts with a slash, single or double, or already begins with a scheme.
  The page URL's scheme is the one \<open>urlsplit\<close> finds; \<open>requests\<close> fetches http and https
  URLs only.
\<close>

theorem get_first_item_url_shape:
  assumes "snd (get_first_item urllib_urljoin requests_get url) = Inr (u, caption)"
    and "fst (urlsplit url []) = ''http'' \<or> fst (urlsplit url []) = ''https''"
  shows "\<exists>resp s. requests_get url 15 = Inr resp \<and> raise_for_status resp = None \<and>
           extract_item (soup_of_text resp) = Inr (s, caption) \<and>
           (startswith s ''//'' \<longrightarrow> u = ''https:'' @ s) \<and>
           (startswith s ''/'' \<and> \<not> startswith s ''//'' \<longrightarrow> u = urllib_urljoin url s) \<and>
           (has_scheme s \<longrightarrow> u = s) \<and>
           (startswith s ''/'' \<or> has_scheme s \<longrightarrow> has_scheme u)"
proof -
  from assms(1) obtain resp s where r: "requests_get url 15 = Inr resp"
    and st: "raise_for_status resp = None"
    and e: "extract_item (soup_of_text resp) = Inr (s, caption)"
    and u: "u = normalize_src urllib_urljoin url s"
    by (auto simp: get_first_item_extract split: sum.splits option.splits)
  have a: "startswith s ''//'' \<longrightarrow> u = ''https:'' @ s"
    using u by (simp add: normalize_src_def)
  have b: "startswith s ''/'' \<and> \<not> startswith s ''//'' \<longrightarrow> u = urllib_urljoin url s"
    using u by (simp add: normalize_src_def)
  have c: "has_scheme s \<longrightarrow> u = s"
  proof
    assume h: "has_scheme s"
    then have n: "\<not> startswith s ''/''" by (rule has_scheme_not_slash)
    then have "\<not> startswith s ''//''" by (cases s) auto
    with n u show "u = s" by (simp add: normalize_src_def)
  qed
  have d: "startswith s ''/'' \<or> has_scheme s \<longrightarrow> has_scheme u"
  proof
    assume "startswith s ''/'' \<or> has_scheme s"
    then show "has_scheme u"
    proof
      assume sl: "startswith s ''/''"
      show ?thesis
      proof (cases "startswith s ''//''")
        case True
        with a show ?thesis using has_scheme_https [of s] by simp
      next
        case False
        with sl b have "u = urllib_urljoin url s" by simp
        with sl assms(2) show ?thesis by (simp add: urllib_urljoin_absolute)
      qed
    next
      assume "has_scheme s"
      with c show ?thesis by simp
    qed
  qed
  from r st e a b c d show ?thesis by blast
qed

text \<open>
  The theorem at the shop's URL and
  \<open><div id="item_42"><img src="/path/a.jpg"><dl><dd>Caption Text</dd></dl></div>\<close>.
\<close>

theorem get_first_item_url_shape_witness:
  "snd (get_first_item urllib_urljoin (\<lambda>u t. Inr (resp_page page_item42)) URL)
     = Inr (''https://www.nogizaka46shop.com/path/a.jpg'', ''Caption Text'') \<and>
   fst (urlsplit URL []) = ''https'' \<and>
   startswith ''/path/a.jpg'' ''/'' \<and>
   has_scheme ''https://www.nogizaka46shop.com/path/a.jpg''"
proof -
  let ?rg = "\<lambda>(u::string) (t::nat). (Inr (resp_page page_item42) :: exn + response)"
  have 1: "snd (get_first_item urllib_urljoin ?rg URL)
     = Inr (''https://www.nogizaka46shop.com/path/a.jpg'', ''Caption Text'')"
    by (simp add: get_first_item_def resp_page_def page_item42_def eval_defs
          urljoin_URL_path URL_def)
  have 2: "fst (urlsplit URL []) = ''http'' \<or> fst (urlsplit URL []) = ''https''"
    by (simp add: urlsplit_URL)
  from get_first_item_url_shape [OF 1 2] obtain resp s
    where r: "?rg URL 15 = Inr resp"
      and e: "extract_item (soup_of_text resp) = Inr (s, ''Caption Text'')"
      and a: "startswith s ''/'' \<or> has_scheme s \<longrightarrow>
                has_scheme ''https://www.nogizaka46shop.com/path/a.jpg''"
    by blast
  from r have "soup_of_text resp = page_item42" by (auto simp: resp_page_def)
  with e have "s = ''/path/a.jpg''"
    by (simp add: page_item42_def eval_defs)
  with a have "has_scheme ''https://www.nogizaka46shop.com/path/a.jpg''" by simp
  with 1 show ?thesis by (simp add: urlsplit_URL)
qed

text \<open>
  The claim as stated fails: for \<open><div id="item_1"><img src="images/x.jpg"></div>\<close> the
  function succeeds and returns \<open>images/x.jpg\<close>, which has no scheme.
\<close>

theorem get_first_item_url_shape_counterexample:
  "snd (get_first_item urllib_urljoin (\<lambda>u t. Inr (resp_page page_relative_src)) URL)
     = Inr (''images/x.jpg'', []) \<and>
   \<not> has_scheme ''images/x.jpg''"
  by (simp add: get_first_item_def resp_page_def page_relative_src_def eval_defs
        has_scheme_def isalpha_def scheme_char_def)

section \<open>The runs of the entry point\<close>

text \<open>
  Claim C7. If \<open>TELEGRAM_BOT_TOKEN\<close> or \<open>TELEGRAM_CHAT_ID\<close> is absent or the empty string,
  the run prints the usage message and nothing else, sends no request, and exits with
  code 2.
\<close>

theorem main_missing_config:
  assumes "environ w ''TELEGRAM_BOT_TOKEN'' = None \<or> environ w ''TELEGRAM_BOT_TOKEN'' = Some [] \<or>
           environ w ''TELEGRAM_CHAT_ID'' = None \<or> environ w ''TELEGRAM_CHAT_ID'' = Some []"
  shows "exit_code (main urljoin w) = 2 \<and>
         events (main urljoin w) = [Print [Str usage]] \<and>
         (\<forall>rq. Request rq \<notin> set (events (main urljoin w)))"
proof -
  from assms
  have "py_not (environ w ''TELEGRAM_BOT_TOKEN'') \<or> py_not (environ w ''TELEGRAM_CHAT_ID'')"
    by (auto simp: py_not_iff)
  then have "main urljoin w = \<lparr>events = [Print [Str usage]], exit_code = 2\<rparr>"
    by (simp add: main_def Let_def)
  then show ?thesis by simp
qed

text \<open>The theorem in a world where \<open>TELEGRAM_CHAT_ID\<close> is not set.\<close>

theorem main_missing_config_witness:
  "environ (world_of env_no_chat (Inr (resp_page page_item42)) (Inr resp_image)
              (Inr (resp_json (JDict [(''ok'', JBool True)])))) ''TELEGRAM_CHAT_ID'' = None \<and>
   exit_code (main urllib_urljoin
       (world_of env_no_chat (Inr (resp_page page_item42)) (Inr resp_image)
          (Inr (resp_json (JDict [(''ok'', JBool True)]))))) = 2 \<and>
   events (main urllib_urljoin
       (world_of env_no_chat (Inr (resp_page page_item42)) (Inr resp_image)
          (Inr (resp_json (JDict [(''ok'', JBool True)]))))) = [Print [Str usage]]"
proof -
  let ?w = "world_of env_no_chat (Inr (resp_page page_item42)) (Inr resp_image)
              (Inr (resp_json (JDict [(''ok'', JBool True)])))"
  have 1: "environ ?w ''TELEGRAM_CHAT_ID'' = None"
    by (simp add: world_of_def env_no_chat_def)
  then have "environ ?w ''TELEGRAM_BOT_TOKEN'' = None \<or> environ ?w ''TELEGRAM_BOT_TOKEN'' = Some [] \<or>
           environ ?w ''TELEGRAM_CHAT_ID'' = None \<or> environ ?w ''TELEGRAM_CHAT_ID'' = Some []"
    by blast
  from main_missing_config [OF this, of urllib_urljoin] 1 show ?thesis by blast
qed

text \<open>
  Claim C8. In every run, a request that was sent and failed (the call raised, or
  \<open>raise_for_status()\<close> raised on its response) ends the run with exit code 1: the page
  request is followed by the error message alone; the image request is followed by the
  error message alone and no \<open>POST\<close> was sent before it; the \<open>POST\<close> is followed by the
  error message alone.
\<close>

theorem main_stage_failure:
  "(Request (GET URL 15) \<in> set (events (main uj w)) \<and> raised (page_get w URL 15) = Some e \<longrightarrow>
      exit_code (main uj w) = 1 \<and>
      events (main uj w)
        = [Request (GET URL 15), Print [Str ''Error fetching/parsing page:'', Exn e]]) \<and>
   (Request (GET u 20) \<in> set (events (main uj w)) \<and> raised (image_get w u 20) = Some e \<longrightarrow>
      exit_code (main uj w) = 1 \<and>
      (\<exists>pre. events (main uj w)
          = pre @ [Request (GET u 20), Print [Str ''Error downloading image:'', Exn e]] \<and>
         (\<forall>a d f t. Request (POST a d f t) \<notin> set pre))) \<and>
   (Request (POST a d f t) \<in> set (events (main uj w)) \<and>
      raised (photo_post w a d f t) = Some e \<longrightarrow>
      exit_code (main uj w) = 1 \<and>
      (\<exists>pre. events (main uj w)
          = pre @ [Request (POST a d f t), Print [Str ''Error sending to Telegram:'', Exn e]]))"
proof (intro conjI impI)
  assume h: "Request (GET URL 15) \<in> set (events (main uj w)) \<and> raised (page_get w URL 15) = Some e"
  then have r: "snd (get_first_item uj (page_get w) URL) = Inl e"
    by (simp add: get_first_item_raised)
  have "exit_code (main uj w) = 1 \<and>
      events (main uj w)
        = [Request (GET URL 15), Print [Str ''Error fetching/parsing page:'', Exn e]]"
  proof (cases uj w rule: main_cases)
    case config
    with h show ?thesis by simp
  next
    case (page e')
    with r show ?thesis by simp
  next
    case (img u' c e')
    with r show ?thesis by simp
  next
    case (post u' c b tok chat a' d' f' r')
    with r show ?thesis by simp
  qed
  then show "exit_code (main uj w) = 1"
    and "events (main uj w)
        = [Request (GET URL 15), Print [Str ''Error fetching/parsing page:'', Exn e]]"
    by simp_all
next
  assume h: "Request (GET u 20) \<in> set (events (main uj w)) \<and> raised (image_get w u 20) = Some e"
  then have r: "snd (download_image_bytes (image_get w) u) = Inl e"
    by (simp add: download_image_bytes_raised)
  have "exit_code (main uj w) = 1 \<and>
      (\<exists>pre. events (main uj w)
          = pre @ [Request (GET u 20), Print [Str ''Error downloading image:'', Exn e]] \<and>
         (\<forall>a d f t. Request (POST a d f t) \<notin> set pre))"
  proof (cases uj w rule: main_cases)
    case config
    with h show ?thesis by simp
  next
    case (page e')
    with h show ?thesis by simp
  next
    case (img u' c e')
    with h have "u' = u" by simp
    with img r have e: "e' = e" by simp
    have "events (main uj w)
          = [Request (GET URL 15), Print [Str ''Found image:'', Str u],
             Print [Str ''Caption:'', Str c]]
            @ [Request (GET u 20), Print [Str ''Error downloading image:'', Exn e]] \<and>
         (\<forall>a d f t. Request (POST a d f t) \<notin> set [Request (GET URL 15),
             Print [Str ''Found image:'', Str u], Print [Str ''Caption:'', Str c]])"
      using img(3) \<open>u' = u\<close> e by simp
    then have "\<exists>pre. events (main uj w)
          = pre @ [Request (GET u 20), Print [Str ''Error downloading image:'', Exn e]] \<and>
         (\<forall>a d f t. Request (POST a d f t) \<notin> set pre)"
      by blast
    moreover have "exit_code (main uj w) = 1" using img(3) by simp
    ultimately show ?thesis by simp
  next
    case (post u' c b tok chat a' d' f' r')
    have "u' = u"
    proof (cases r')
      case (Inl x)
      with post(4) h show ?thesis by simp
    next
      case (Inr res)
      with post(4) h show ?thesis by (cases "res_get res ''ok''") simp_all
    qed
    with post(2) r show ?thesis by simp
  qed
  then show "exit_code (main uj w) = 1"
    and "\<exists>pre. events (main uj w)
          = pre @ [Request (GET u 20), Print [Str ''Error downloading image:'', Exn e]] \<and>
         (\<forall>a d f t. Request (POST a d f t) \<notin> set pre)"
    by simp_all
next
  assume h: "Request (POST a d f t) \<in> set (events (main uj w)) \<and>
      raised (photo_post w a d f t) = Some e"
  have "exit_code (main uj w) = 1 \<and>
      (\<exists>pre. events (main uj w)
          = pre @ [Request (POST a d f t), Print [Str ''Error sending to Telegram:'', Exn e]])"
  proof (cases uj w rule: main_cases)
    case config
    with h show ?thesis by simp
  next
    case (page e')
    with h show ?thesis by simp
  next
    case (img u' c e')
    with h show ?thesis by simp
  next
    case (post u' c b tok chat a' d' f' r')
    have eq: "POST a' d' f' 30 = POST a d f t"
    proof (cases r')
      case (Inl x)
      with post(4) h show ?thesis by simp
    next
      case (Inr res)
      with post(4) h show ?thesis by (cases "res_get res ''ok''") simp_all
    qed
    then have sp: "send_photo_telegram (photo_post w) tok chat b c = ([POST a d f t], r')"
      using post(3) by simp
    from h have "raised (photo_post w a d f t) = Some e" by simp
    with sp have r': "r' = Inl e" by (rule send_photo_telegram_raised)
    have "events (main uj w)
          = [Request (GET URL 15), Print [Str ''Found image:'', Str u'],
             Print [Str ''Caption:'', Str c], Request (GET u' 20)]
            @ [Request (POST a d f t), Print [Str ''Error sending to Telegram:'', Exn e]]"
      using post(4) r' eq by simp
    then have "\<exists>pre. events (main uj w)
          = pre @ [Request (POST a d f t), Print [Str ''Error sending to Telegram:'', Exn e]]"
      by blast
    moreover have "exit_code (main uj w) = 1" using post(4) r' by simp
    ultimately show ?thesis by simp
  qed
  then show "exit_code (main uj w) = 1"
    and "\<exists>pre. events (main uj w)
          = pre @ [Request (POST a d f t), Print [Str ''Error sending to Telegram:'', Exn e]]"
    by simp_all
qed

text \<open>
  The theorem in three worlds: the page request times out, the image request answers
  500, the \<open>POST\<close> answers 403.
\<close>

theorem main_stage_failure_witness:
  "Request (GET URL 15) \<in> set (events (main urllib_urljoin world_page_down)) \<and>
   raised (page_get world_page_down URL 15) = Some (RequestException ''Read timed out'') \<and>
   exit_code (main urllib_urljoin world_page_down) = 1 \<and>
   Request (GET ''https://www.nogizaka46shop.com/path/a.jpg'' 20)
     \<in> set (events (main urllib_urljoin world_image_500)) \<and>
   raised (image_get world_image_500 ''https://www.nogizaka46shop.com/path/a.jpg'' 20)
     = Some (HTTPError ''500 Server Error'') \<and>
   exit_code (main urllib_urljoin world_image_500) = 1 \<and>
   Request (POST ''https://api.telegram.org/bot123:abc/sendPhoto''
              [(''chat_id'', ''-1001''), (''caption'', ''Caption Text'')]
              [(''photo'', ''image.jpg'', [255, 216, 255])] 30)
     \<in> set (events (main urllib_urljoin world_post_403)) \<and>
   raised (photo_post world_post_403 ''https://api.telegram.org/bot123:abc/sendPhoto''
              [(''chat_id'', ''-1001''), (''caption'', ''Caption Text'')]
              [(''photo'', ''image.jpg'', [255, 216, 255])] 30)
     = Some (HTTPError ''403 Client Error'') \<and>
   exit_code (main urllib_urljoin world_post_403) = 1"
proof -
  let ?u = "''https://www.nogizaka46shop.com/path/a.jpg''"
  let ?a = "''https://api.telegram.org/bot123:abc/sendPhoto''"
  let ?d = "[(''chat_id'', ''-1001''), (''caption'', ''Caption Text'')]"
  let ?f = "[(''photo'', ''image.jpg'', [255, 216, 255 :: byte])]"
  have 1: "Request (GET URL 15) \<in> set (events (main urllib_urljoin world_page_down)) \<and>
           raised (page_get world_page_down URL 15) = Some (RequestException ''Read timed out'')"
    by (simp add: run_page_down) (simp add: world_page_down_def world_of_def raised_def)
  have 2: "Request (GET ?u 20) \<in> set (events (main urllib_urljoin world_image_500)) \<and>
           raised (image_get world_image_500 ?u 20) = Some (HTTPError ''500 Server Error'')"
    by (simp add: run_image_500)
       (simp add: world_image_500_def world_of_def raised_def resp_status_def)
  have 3: "Request (POST ?a ?d ?f 30) \<in> set (events (main urllib_urljoin world_post_403)) \<and>
           raised (photo_post world_post_403 ?a ?d ?f 30) = Some (HTTPError ''403 Client Error'')"
    by (simp add: run_post_403)
       (simp add: world_post_403_def world_of_def raised_def resp_status_def)
  note t1 = main_stage_failure [where uj = urllib_urljoin and w = world_page_down
                and e = "RequestException ''Read timed out''"]
  note t2 = main_stage_failure [where uj = urllib_urljoin and w = world_image_500
                and e = "HTTPError ''500 Server Error''" and u = ?u]
  note t3 = main_stage_failure [where uj = urllib_urljoin and w = world_post_403
                and e = "HTTPError ''403 Client Error''" and a = ?a and d = ?d and f = ?f and t = 30]
  have c1: "exit_code (main urllib_urljoin world_page_down) = 1" using 1 t1 by blast
  have c2: "exit_code (main urllib_urljoin world_image_500) = 1" using 2 t2 by blast
  have c3: "exit_code (main urllib_urljoin world_post_403) = 1" using 3 t3 by blast
  from 1 2 3 c1 c2 c3 show ?thesis by blast
qed




end
